theory Spec2Isabelle
  imports Main "HOL-Library.Monad_Syntax" "HOL-Library.Multiset"
begin

section \<open>The mutable pairing heap of origin/heaps/pairing_heap.hpp\<close>

text \<open>
  The heap keeps its tree in an arena of link records (\<open>data_\<close>), its values in a dense
  array (\<open>elements_\<close>) and finds the arena index of an item through the identity locator
  \<open>id_\<close>. All links are \<open>size_t\<close> indices and \<open>size_type(-1)\<close> means "no relation".

  Conventions of the embedding:
  \<^item> an index is a \<open>nat option\<close>; \<open>None\<close> is the sentinel \<open>size_type(-1)\<close>. An arena of
    40-byte records can never hold \<open>2^64 - 1\<close> nodes, so the sentinel is never a valid
    position and every access through it is out of range;
  \<^item> \<open>std::vector::operator[]\<close> out of range is undefined behaviour. Every read and write
    is bounds-checked in the model and an operation that would leave the vector returns
    \<open>None\<close>; so does a loop that does not terminate;
  \<^item> the template parameter \<open>Compare\<close> is the parameter \<open>cmp\<close>. The locator is a table
    from keys to arena indices, read and written with the semantics of
    \<open>std::unordered_map::operator[]\<close> (a missing key is inserted with the value \<open>0\<close>);
    \<open>key\<close> sends an item to its class under the key equality of the map, and is the
    identity when items are compared by value.
\<close>

subsection \<open>Data\<close>

type_synonym idx = "nat option"

record pairing_heap_node =
  item_index :: idx
  parent :: idx
  child :: idx
  right_sibling :: idx
  left_sibling :: idx

record ('a, 'k) heap =
  elements :: "'a list"
  data :: "pairing_heap_node list"
  imap :: "'k \<Rightarrow> nat option"
  top_index :: idx

text \<open>The heap built by the constructor that takes a comparison: no value, no node, no root.\<close>

definition empty_heap :: "('a, 'k) heap" where
  "empty_heap = \<lparr>elements = [], data = [], imap = (\<lambda>k. None), top_index = None\<rparr>"

subsection \<open>Vector access\<close>

definition vec_get :: "'x list \<Rightarrow> idx \<Rightarrow> 'x option" where
  "vec_get xs i = (case i of None \<Rightarrow> None
                   | Some n \<Rightarrow> if n < length xs then Some (xs ! n) else None)"

definition vec_upd :: "'x list \<Rightarrow> idx \<Rightarrow> ('x \<Rightarrow> 'x) \<Rightarrow> 'x list option" where
  "vec_upd xs i f = (case i of None \<Rightarrow> None
                     | Some n \<Rightarrow> if n < length xs then Some (xs[n := f (xs ! n)]) else None)"

text \<open>\<open>id_(d)\<close> read as a value: \<open>(*imap)[key]\<close> creates the entry \<open>0\<close> when the key is new.\<close>

definition id_lookup :: "('a \<Rightarrow> 'k) \<Rightarrow> ('k \<Rightarrow> nat option) \<Rightarrow> 'a \<Rightarrow> nat \<times> ('k \<Rightarrow> nat option)" where
  "id_lookup key m d = (case m (key d) of None \<Rightarrow> (0, m(key d \<mapsto> 0)) | Some i \<Rightarrow> (i, m))"

subsection \<open>merge\<close>

definition merge :: "idx \<Rightarrow> idx \<Rightarrow> pairing_heap_node list \<Rightarrow> pairing_heap_node list option" where
  "merge index1 index2 ds = do {
     ds1 \<leftarrow> vec_upd ds index1 (\<lambda>n. n\<lparr>parent := index2\<rparr>);
     n2 \<leftarrow> vec_get ds1 index2;
     ds2 \<leftarrow> vec_upd ds1 index1 (\<lambda>n. n\<lparr>right_sibling := child n2\<rparr>);
     n2' \<leftarrow> vec_get ds2 index2;
     ds3 \<leftarrow> (if child n2' \<noteq> None
             then vec_upd ds2 (child n2') (\<lambda>n. n\<lparr>left_sibling := index1\<rparr>)
             else Some ds2);
     vec_upd ds3 index2 (\<lambda>n. n\<lparr>child := index1\<rparr>)
   }"

text \<open>\<open>elements_[data_[i].item_index]\<close>\<close>

definition value_at :: "'a list \<Rightarrow> pairing_heap_node list \<Rightarrow> idx \<Rightarrow> 'a option" where
  "value_at es ds i = do { n \<leftarrow> vec_get ds i; vec_get es (item_index n) }"

subsection \<open>push, top, empty, size\<close>

definition push :: "('a \<Rightarrow> 'a \<Rightarrow> bool) \<Rightarrow> ('a \<Rightarrow> 'k) \<Rightarrow> 'a \<Rightarrow> ('a, 'k) heap \<Rightarrow> ('a, 'k) heap option" where
  "push cmp key d h =
    (let es = elements h @ [d];
         obj = \<lparr>item_index = Some (length es - 1), parent = None, child = None,
                right_sibling = None, left_sibling = None\<rparr>;
         ds = data h @ [obj];
         index = length ds - 1;
         m = (imap h)(key d \<mapsto> index)
     in if top_index h = None
        then Some \<lparr>elements = es, data = ds, imap = m, top_index = Some index\<rparr>
        else do {
          a \<leftarrow> value_at es ds (Some index);
          b \<leftarrow> value_at es ds (top_index h);
          if cmp a b
          then do {
            ds' \<leftarrow> merge (top_index h) (Some index) ds;
            Some \<lparr>elements = es, data = ds', imap = m, top_index = Some index\<rparr> }
          else do {
            ds' \<leftarrow> merge (Some index) (top_index h) ds;
            Some \<lparr>elements = es, data = ds', imap = m, top_index = top_index h\<rparr> }
        })"

definition heap_top :: "('a, 'k) heap \<Rightarrow> 'a option" where
  "heap_top h = value_at (elements h) (data h) (top_index h)"

definition heap_empty :: "('a, 'k) heap \<Rightarrow> bool" where
  "heap_empty h = (length (elements h) = 0)"

definition heap_size :: "('a, 'k) heap \<Rightarrow> nat" where
  "heap_size h = length (elements h)"

subsection \<open>update\<close>

definition update :: "('a \<Rightarrow> 'a \<Rightarrow> bool) \<Rightarrow> ('a \<Rightarrow> 'k) \<Rightarrow> 'a \<Rightarrow> ('a, 'k) heap \<Rightarrow> ('a, 'k) heap option" where
  "update cmp key d h =
    (let (index, m) = id_lookup key (imap h) d in do {
       ni \<leftarrow> vec_get (data h) (Some index);
       es \<leftarrow> vec_upd (elements h) (item_index ni) (\<lambda>_. d);
       if Some index = top_index h
       then Some (h\<lparr>elements := es, imap := m\<rparr>)
       else do {
         let par = parent ni;
         let left_sib = left_sibling ni;
         let right_sib = right_sibling ni;
         ds1 \<leftarrow> (if left_sib = None
                 then vec_upd (data h) par (\<lambda>n. n\<lparr>child := right_sib\<rparr>)
                 else vec_upd (data h) left_sib (\<lambda>n. n\<lparr>right_sibling := right_sib\<rparr>));
         ds2 \<leftarrow> (if right_sib \<noteq> None
                 then vec_upd ds1 right_sib (\<lambda>n. n\<lparr>left_sibling := left_sib\<rparr>)
                 else Some ds1);
         ds3 \<leftarrow> vec_upd ds2 (Some index)
                 (\<lambda>n. n\<lparr>parent := None, left_sibling := None, right_sibling := None\<rparr>);
         a \<leftarrow> value_at es ds3 (Some index);
         b \<leftarrow> value_at es ds3 (top_index h);
         if cmp a b
         then do {
           ds' \<leftarrow> merge (top_index h) (Some index) ds3;
           Some \<lparr>elements = es, data = ds', imap = m, top_index = Some index\<rparr> }
         else do {
           ds' \<leftarrow> merge (Some index) (top_index h) ds3;
           Some \<lparr>elements = es, data = ds', imap = m, top_index = top_index h\<rparr> }
       }
     })"

subsection \<open>pop\<close>

text \<open>
  The first loop of \<open>pop\<close>: the children of the old root are taken two at a time, each pair
  is merged, and the winners are chained through \<open>left_sibling\<close>. The loop state is
  \<open>(data_, index1, prev_pair, new_top_)\<close>.
\<close>

definition detach :: "pairing_heap_node \<Rightarrow> pairing_heap_node" where
  "detach n = n\<lparr>parent := None, left_sibling := None, right_sibling := None\<rparr>"

partial_function (option) pair_loop ::
  "('a \<Rightarrow> 'a \<Rightarrow> bool) \<Rightarrow> 'a list \<Rightarrow> pairing_heap_node list \<Rightarrow> idx \<Rightarrow> idx \<Rightarrow> idx
     \<Rightarrow> (pairing_heap_node list \<times> idx \<times> idx \<times> idx) option" where
  "pair_loop cmp es ds index1 prev_pair new_top =
    (if index1 = None then Some (ds, index1, prev_pair, new_top)
     else do {
       n1 \<leftarrow> vec_get ds index1;
       if right_sibling n1 = None then Some (ds, index1, prev_pair, new_top)
       else do {
         let index2 = right_sibling n1;
         n2 \<leftarrow> vec_get ds index2;
         let next_index = right_sibling n2;
         ds1 \<leftarrow> vec_upd ds index1 detach;
         ds2 \<leftarrow> vec_upd ds1 index2 detach;
         a \<leftarrow> value_at es ds2 index1;
         b \<leftarrow> value_at es ds2 index2;
         (ds3, nt) \<leftarrow> (if cmp a b
                       then do { ds' \<leftarrow> merge index2 index1 ds2; Some (ds', index1) }
                       else do { ds' \<leftarrow> merge index1 index2 ds2; Some (ds', index2) });
         ds4 \<leftarrow> vec_upd ds3 nt (\<lambda>n. n\<lparr>left_sibling := prev_pair\<rparr>);
         pair_loop cmp es ds4 next_index nt nt
       }
     })"

declare pair_loop.simps [code]

text \<open>The second loop: the chain of winners is folded from the last one back to the first.\<close>

partial_function (option) acc_loop ::
  "('a \<Rightarrow> 'a \<Rightarrow> bool) \<Rightarrow> 'a list \<Rightarrow> pairing_heap_node list \<Rightarrow> idx
     \<Rightarrow> (pairing_heap_node list \<times> idx) option" where
  "acc_loop cmp es ds new_top =
    (if new_top = None then Some (ds, new_top)
     else do {
       nt \<leftarrow> vec_get ds new_top;
       if left_sibling nt = None then Some (ds, new_top)
       else do {
         let merge_pair = left_sibling nt;
         mp \<leftarrow> vec_get ds merge_pair;
         let next_pair = left_sibling mp;
         ds1 \<leftarrow> vec_upd ds new_top (\<lambda>n. n\<lparr>left_sibling := None\<rparr>);
         ds2 \<leftarrow> vec_upd ds1 merge_pair (\<lambda>n. n\<lparr>left_sibling := None\<rparr>);
         a \<leftarrow> value_at es ds2 merge_pair;
         b \<leftarrow> value_at es ds2 new_top;
         (ds3, nt') \<leftarrow> (if cmp a b
                        then do { ds' \<leftarrow> merge new_top merge_pair ds2; Some (ds', merge_pair) }
                        else do { ds' \<leftarrow> merge merge_pair new_top ds2; Some (ds', new_top) });
         ds4 \<leftarrow> vec_upd ds3 nt' (\<lambda>n. n\<lparr>left_sibling := next_pair\<rparr>);
         acc_loop cmp es ds4 nt'
       }
     })"

declare acc_loop.simps [code]

definition dead_node :: pairing_heap_node where
  "dead_node = \<lparr>item_index = None, parent = None, child = None,
                right_sibling = None, left_sibling = None\<rparr>"

text \<open>The \<open>if\<close> between the loops: a last child without a partner is a winner by itself.\<close>

definition odd_child :: "pairing_heap_node list \<Rightarrow> idx \<Rightarrow> idx \<Rightarrow> idx
     \<Rightarrow> (pairing_heap_node list \<times> idx) option" where
  "odd_child ds index1 prev_pair new_top =
    (if index1 = None then Some (ds, new_top)
     else do {
       n1 \<leftarrow> vec_get ds index1;
       if right_sibling n1 = None
       then do {
         ds' \<leftarrow> vec_upd ds index1 (\<lambda>n. n\<lparr>parent := None, right_sibling := None\<rparr>);
         ds'' \<leftarrow> vec_upd ds' index1 (\<lambda>n. n\<lparr>left_sibling := prev_pair\<rparr>);
         Some (ds'', index1) }
       else Some (ds, new_top) })"

definition pop :: "('a \<Rightarrow> 'a \<Rightarrow> bool) \<Rightarrow> ('a \<Rightarrow> 'k) \<Rightarrow> ('a, 'k) heap \<Rightarrow> ('a, 'k) heap option" where
  "pop cmp key h =
    (if top_index h = None then Some h
     else do {
       t \<leftarrow> vec_get (data h) (top_index h);
       (ds1, index1, prev_pair, new_top) \<leftarrow>
          pair_loop cmp (elements h) (data h) (child t) None None;
       (ds2, new_top2) \<leftarrow> odd_child ds1 index1 prev_pair new_top;
       (ds3, new_top3) \<leftarrow> acc_loop cmp (elements h) ds2 new_top2;
       last_elem \<leftarrow> (if elements h = [] then None else Some (last (elements h)));
       let (index, m) = id_lookup key (imap h) last_elem;
       t3 \<leftarrow> vec_get ds3 (top_index h);
       es \<leftarrow> vec_upd (elements h) (item_index t3) (\<lambda>_. last_elem);
       ds4 \<leftarrow> vec_upd ds3 (Some index) (\<lambda>n. n\<lparr>item_index := item_index t3\<rparr>);
       ds5 \<leftarrow> vec_upd ds4 (top_index h) (\<lambda>_. dead_node);
       Some \<lparr>elements = butlast es, data = ds5, imap = m, top_index = new_top3\<rparr>
     })"

subsection \<open>The heap with the default internal map\<close>

text \<open>
  \<open>mutable_pairing_heap<T, Compare, default_t>\<close> owns the \<open>unordered_map\<close> and forwards
  every call to the implementation, except \<open>pop\<close>, which reads the top element first and
  erases its key afterwards.
\<close>

definition mph_pop :: "('a \<Rightarrow> 'a \<Rightarrow> bool) \<Rightarrow> ('a \<Rightarrow> 'k) \<Rightarrow> ('a, 'k) heap \<Rightarrow> ('a, 'k) heap option" where
  "mph_pop cmp key h = do {
     top_element \<leftarrow> heap_top h;
     h' \<leftarrow> pop cmp key h;
     Some (h'\<lparr>imap := (imap h')(key top_element := None)\<rparr>)
   }"

subsection \<open>Sequences of calls\<close>

datatype 'a call = Push 'a | Pop | Update 'a

fun exec :: "('a \<Rightarrow> 'a \<Rightarrow> bool) \<Rightarrow> ('a \<Rightarrow> 'k) \<Rightarrow> 'a call \<Rightarrow> ('a, 'k) heap \<Rightarrow> ('a, 'k) heap option" where
  "exec cmp key (Push d) h = push cmp key d h"
| "exec cmp key Pop h = pop cmp key h"
| "exec cmp key (Update d) h = update cmp key d h"

fun run :: "('a \<Rightarrow> 'a \<Rightarrow> bool) \<Rightarrow> ('a \<Rightarrow> 'k) \<Rightarrow> 'a call list \<Rightarrow> ('a, 'k) heap \<Rightarrow> ('a, 'k) heap option" where
  "run cmp key [] h = Some h"
| "run cmp key (c # cs) h = (case exec cmp key c h of None \<Rightarrow> None | Some h' \<Rightarrow> run cmp key cs h')"

text \<open>\<open>n\<close> rounds of \<open>top()\<close> followed by \<open>pop()\<close>; \<open>popf\<close> is the \<open>pop\<close> of the interface used.\<close>

fun drain :: "(('a, 'k) heap \<Rightarrow> ('a, 'k) heap option) \<Rightarrow> nat \<Rightarrow> ('a, 'k) heap \<Rightarrow> 'a list option" where
  "drain popf 0 h = Some []"
| "drain popf (Suc n) h = do {
     x \<leftarrow> heap_top h;
     h' \<leftarrow> popf h;
     xs \<leftarrow> drain popf n h';
     Some (x # xs)
   }"

text \<open>The calls from the empty heap, followed by \<open>n\<close> extractions.\<close>

definition session :: "('a \<Rightarrow> 'a \<Rightarrow> bool) \<Rightarrow> ('a \<Rightarrow> 'k) \<Rightarrow> 'a call list
    \<Rightarrow> (('a, 'k) heap \<Rightarrow> ('a, 'k) heap option) \<Rightarrow> nat \<Rightarrow> 'a list option" where
  "session cmp key calls popf n = run cmp key calls empty_heap \<bind> drain popf n"

fun pushes :: "'a call list \<Rightarrow> nat" where
  "pushes [] = 0"
| "pushes (Push d # cs) = Suc (pushes cs)"
| "pushes (c # cs) = pushes cs"

fun pops :: "'a call list \<Rightarrow> nat" where
  "pops [] = 0"
| "pops (Pop # cs) = Suc (pops cs)"
| "pops (c # cs) = pops cs"

text \<open>The \<open>pop\<close> calls of a run that pass the guard \<open>top_ == size_type(-1)\<close> of \<open>pop\<close>.\<close>

fun guarded_pops :: "('a \<Rightarrow> 'a \<Rightarrow> bool) \<Rightarrow> ('a \<Rightarrow> 'k) \<Rightarrow> 'a call list \<Rightarrow> ('a, 'k) heap \<Rightarrow> nat" where
  "guarded_pops cmp key [] h = 0"
| "guarded_pops cmp key (c # cs) h =
     (if c = Pop \<and> top_index h \<noteq> None then 1 else 0) +
     (case exec cmp key c h of None \<Rightarrow> 0 | Some h' \<Rightarrow> guarded_pops cmp key cs h')"

subsection \<open>Instances of the template parameters\<close>

text \<open>Items that are their own key: \<open>std::unordered_map<T, size_t>\<close> with value equality.\<close>

definition by_value :: "'a \<Rightarrow> 'a" where
  "by_value x = x"

text \<open>The arena after \<open>push(1); push(2)\<close> on a min-heap, and after a further \<open>merge(1, 0)\<close>.\<close>

definition arena_two :: "pairing_heap_node list" where
  "arena_two =
    [\<lparr>item_index = Some 0, parent = None, child = Some 1, right_sibling = None, left_sibling = None\<rparr>,
     \<lparr>item_index = Some 1, parent = Some 0, child = None, right_sibling = None, left_sibling = None\<rparr>]"

definition arena_two_merged :: "pairing_heap_node list" where
  "arena_two_merged =
    [\<lparr>item_index = Some 0, parent = None, child = Some 1, right_sibling = None, left_sibling = None\<rparr>,
     \<lparr>item_index = Some 1, parent = Some 0, child = None, right_sibling = Some 1, left_sibling = Some 1\<rparr>]"

text \<open>
  The effect of \<open>merge(x, y)\<close> in the words of the specification: \<open>x.parent = y\<close>;
  \<open>x.right_sibling\<close> is the previous \<open>y.child\<close>; if that child existed, its
  \<open>left_sibling\<close> becomes \<open>x\<close>; \<open>y.child = x\<close>.
\<close>

definition merge_spec :: "nat \<Rightarrow> nat \<Rightarrow> pairing_heap_node list \<Rightarrow> pairing_heap_node list" where
  "merge_spec x y ds =
    (let c = child (ds ! y);
         ds1 = ds[x := (ds ! x)\<lparr>parent := Some y, right_sibling := c\<rparr>];
         ds2 = (case c of None \<Rightarrow> ds1 | Some k \<Rightarrow> ds1[k := (ds1 ! k)\<lparr>left_sibling := Some x\<rparr>])
     in ds2[y := (ds2 ! y)\<lparr>child := Some x\<rparr>])"

text \<open>The heaps after \<open>push(3); push(5)\<close> and after \<open>push(5); push(5)\<close> on a min-heap of integers.\<close>

definition heap_two :: "(int, int) heap" where
  "heap_two = \<lparr>elements = [3, 5], data = arena_two, imap = [3 \<mapsto> 0, 5 \<mapsto> 1], top_index = Some 0\<rparr>"

definition heap_dup :: "(int, int) heap" where
  "heap_dup = \<lparr>elements = [5, 5], data = arena_two, imap = [5 \<mapsto> 1], top_index = Some 0\<rparr>"

section \<open>Basic facts\<close>

lemma vec_get_simps [simp]:
  "vec_get xs None = None"
  "vec_get xs (Some n) = (if n < length xs then Some (xs ! n) else None)"
  by (simp_all add: vec_get_def)

lemma vec_upd_simps [simp]:
  "vec_upd xs None f = None"
  "vec_upd xs (Some n) f = (if n < length xs then Some (xs[n := f (xs ! n)]) else None)"
  by (simp_all add: vec_upd_def)

lemma vec_upd_length: "vec_upd xs i f = Some ys \<Longrightarrow> length ys = length xs"
  by (cases i) (auto split: if_splits)

lemma merge_length: "merge i j ds = Some ds' \<Longrightarrow> length ds' = length ds"
  unfolding merge_def
  by (auto split: Option.bind_splits if_splits dest!: vec_upd_length)

lemma pair_loop_length:
  assumes "pair_loop cmp es ds i1 pp nt = Some r"
  shows "length (fst r) = length ds"
  apply (rule pair_loop.raw_induct
      [where P = "\<lambda>cmp es ds i1 pp nt r. length (fst r) = length ds", OF _ assms])
  apply (auto split: if_splits Option.bind_splits prod.splits simp: Let_def
      dest!: vec_upd_length merge_length)
  done

lemma acc_loop_length:
  assumes "acc_loop cmp es ds nt = Some r"
  shows "length (fst r) = length ds"
  apply (rule acc_loop.raw_induct
      [where P = "\<lambda>cmp es ds nt r. length (fst r) = length ds", OF _ assms])
  apply (auto split: if_splits Option.bind_splits prod.splits simp: Let_def
      dest!: vec_upd_length merge_length)
  done

lemma pop_guard: "top_index h = None \<Longrightarrow> pop cmp key h = Some h"
  by (simp add: pop_def)

lemma pop_effect:
  assumes "pop cmp key h = Some h'" "top_index h = Some t"
  shows "length (data h') = length (data h) \<and> data h' ! t = dead_node
     \<and> elements h \<noteq> [] \<and> length (elements h') = length (elements h) - 1"
  using assms unfolding pop_def odd_child_def
  by (auto split: if_splits Option.bind_splits prod.splits simp: Let_def
      dest!: vec_upd_length merge_length pair_loop_length acc_loop_length)

lemma push_effect:
  assumes "push cmp key d h = Some h'"
  shows "length (data h') = Suc (length (data h)) \<and> elements h' = elements h @ [d]
     \<and> imap h' = (imap h)(key d \<mapsto> length (data h))"
  using assms unfolding push_def
  by (auto split: if_splits Option.bind_splits simp: Let_def dest!: merge_length)

lemma update_effect:
  assumes "update cmp key d h = Some h'"
  shows "length (data h') = length (data h) \<and> length (elements h') = length (elements h)"
  using assms unfolding update_def
  by (auto split: if_splits Option.bind_splits prod.splits simp: Let_def
      dest!: vec_upd_length merge_length)

lemma heap_two_run: "run (<) by_value [Push 3, Push 5] empty_heap = Some heap_two"
  by (simp add: push_def empty_heap_def heap_two_def arena_two_def by_value_def value_at_def
      merge_def Let_def)

lemma heap_dup_run: "run (<) by_value [Push 5, Push 5] empty_heap = Some heap_dup"
  by (simp add: push_def empty_heap_def heap_dup_def arena_two_def by_value_def value_at_def
      merge_def Let_def)

lemma not_is_none: "\<not> Option.is_none x \<Longrightarrow> x = Some (the x)"
  by (cases x) auto

lemma merge_eq:
  assumes "x \<noteq> y" "x < length ds" "y < length ds"
    and "\<And>k. child (ds ! y) = Some k \<Longrightarrow> k < length ds \<and> k \<noteq> x"
  shows "merge (Some x) (Some y) ds = Some (merge_spec x y ds)"
proof (cases "child (ds ! y)")
  case None
  then show ?thesis using assms(1-3)
    by (simp add: merge_def merge_spec_def list_update_swap)
next
  case (Some k)
  with assms(4) have "k < length ds" "k \<noteq> x" by auto
  with Some assms(1-3) show ?thesis
    by (simp add: merge_def merge_spec_def Let_def)
qed

lemma mph_pop_erases:
  assumes "mph_pop cmp key h = Some h'" "heap_top h = Some t"
  shows "imap h' (key t) = None"
  using assms by (auto simp: mph_pop_def split: Option.bind_splits)

lemma exec_size:
  assumes "exec cmp key c h = Some h'"
  shows "heap_size h' + (if c = Pop \<and> top_index h \<noteq> None then 1 else 0)
       = heap_size h + pushes [c] \<and> length (data h') = length (data h) + pushes [c]"
proof (cases c)
  case (Push d)
  with assms show ?thesis by (auto simp: heap_size_def dest!: push_effect)
next
  case Pop
  show ?thesis
  proof (cases "top_index h")
    case None
    with Pop assms show ?thesis by (simp add: pop_guard)
  next
    case (Some t)
    with Pop assms pop_effect [of cmp key h h' t] show ?thesis
      by (cases "elements h") (auto simp: heap_size_def)
  qed
next
  case (Update d)
  with assms show ?thesis by (auto simp: heap_size_def dest!: update_effect)
qed

lemma pushes_Cons: "pushes (c # cs) = pushes [c] + pushes cs"
  by (cases c) auto

lemma run_size:
  "run cmp key calls h0 = Some h \<Longrightarrow>
     heap_size h + guarded_pops cmp key calls h0 = heap_size h0 + pushes calls
     \<and> length (data h) = length (data h0) + pushes calls"
proof (induction calls arbitrary: h0)
  case Nil
  then show ?case by simp
next
  case (Cons c cs)
  then obtain h1 where h1: "exec cmp key c h0 = Some h1" and r: "run cmp key cs h1 = Some h"
    by (auto split: option.splits)
  from Cons.IH [OF r] exec_size [OF h1] h1 show ?case
    by (simp add: pushes_Cons [of c cs] del: pushes.simps)
qed

section \<open>The claims that need no invariant\<close>

subsection \<open>C5: pop on an empty heap\<close>

text \<open>
  C5 says that \<open>pop()\<close> on an empty heap is a no-op at every public interface, the default
  internal-map variant included. The implementation's \<open>pop\<close> returns at its guard and
  leaves the heap as it is. The \<open>pop\<close> of the default variant reads \<open>impl.top()\<close> before it
  calls the implementation: on the empty heap that is \<open>data_[size_type(-1)]\<close> on an empty
  vector, an access out of range, so the call is undefined instead of a no-op.
\<close>

theorem pop_empty_default_map_undefined:
  "pop cmp key empty_heap = Some empty_heap \<and> mph_pop cmp key empty_heap = None"
  by (simp add: pop_def mph_pop_def heap_top_def value_at_def empty_heap_def)

subsection \<open>C3: decrease-key on 5, 3, 8, 1\<close>

text \<open>
  C3: the values 5, 3, 8, 1 are pushed into a fresh min-heap and \<open>update\<close> is called to
  change the item valued 8 to the value 0; the extractions then return 0, 1, 3, 5.

  \<open>update(d)\<close> finds the node of the item through the locator, so the call changes the item
  valued 8 exactly when the locator resolves the new value 0 to the entry of that item. In
  the first two statements the locator is any function of the item that tells the four
  pushed items apart and gives the new value the key of the item valued 8 (the heap stores
  references, and the reference is unchanged by the update); the extractions are made with
  the implementation's \<open>pop\<close> and with the \<open>pop\<close> of the default variant. In the third
  statement the items are plain values under a map owned by the caller, who re-points the
  entry of \<open>8\<close> to the key \<open>0\<close> before the call, as the precondition of \<open>update\<close> asks
  ("Element d must already be updated in the map").
\<close>

theorem update_decreases_key:
  fixes key :: "int \<Rightarrow> 'k"
  assumes "key 0 = key 8" and "distinct (map key [5, 3, 8, 1])"
  shows "session (<) key [Push 5, Push 3, Push 8, Push 1, Update 0] (pop (<) key)
            4 = Some [0, 1, 3, 5]
    \<and> session (<) key [Push 5, Push 3, Push 8, Push 1, Update 0] (mph_pop (<) key)
            4 = Some [0, 1, 3, 5]
    \<and> (run (<) by_value [Push 5, Push 3, Push 8, Push (1 :: int)] empty_heap
          \<bind> (\<lambda>h. update (<) by_value 0 (h\<lparr>imap := (imap h)(by_value 0 := imap h (by_value 8))\<rparr>))
          \<bind> drain (pop (<) by_value) 4) = Some [0, 1, 3, 5]"
proof -
  have four: "(4 :: nat) = Suc (Suc (Suc (Suc 0)))" by simp
  show ?thesis
    using assms unfolding four
    by (auto simp add: session_def empty_heap_def push_def update_def pop_def mph_pop_def
        merge_def value_at_def vec_get_def vec_upd_def id_lookup_def heap_top_def odd_child_def
        detach_def dead_node_def by_value_def pair_loop.simps acc_loop.simps Let_def)
qed

theorem update_decreases_key_witness:
  "(\<lambda>x :: int. if x = 0 then 8 else x) 0 = (\<lambda>x :: int. if x = 0 then 8 else x) 8
   \<and> distinct (map (\<lambda>x :: int. if x = 0 then 8 else x) [5, 3, 8, 1])
   \<and> session (<) (\<lambda>x :: int. if x = 0 then 8 else x)
        [Push 5, Push 3, Push 8, Push 1, Update 0]
        (pop (<) (\<lambda>x :: int. if x = 0 then 8 else x)) 4
      = Some [0, 1, 3, 5]"
  using update_decreases_key [of "\<lambda>x :: int. if x = 0 then 8 else x"] by simp

subsection \<open>C8: merge\<close>

text \<open>
  C8 as stated: for every pair of distinct arena indices \<open>x\<close> and \<open>y\<close>, \<open>merge(x, y)\<close> does
  not touch \<open>x.left_sibling\<close>. When \<open>x\<close> is already the first child of \<open>y\<close> the previous
  child of \<open>y\<close> is \<open>x\<close> itself, and the write to the previous child's \<open>left_sibling\<close>
  lands on \<open>x\<close>: in the arena left by \<open>push(1); push(2)\<close>, \<open>merge(1, 0)\<close> sets the
  \<open>left_sibling\<close> of node 1 to 1.
\<close>

theorem merge_touches_left_sibling_of_first_child:
  "merge (Some 1) (Some 0) arena_two = Some arena_two_merged
   \<and> left_sibling (arena_two_merged ! 1) \<noteq> left_sibling (arena_two ! 1)"
  by (simp add: merge_def arena_two_def arena_two_merged_def)

text \<open>
  C8, amended: for distinct arena indices \<open>x\<close> and \<open>y\<close> such that the previous child of
  \<open>y\<close>, when there is one, is an arena index other than \<open>x\<close> (the callers detach \<open>x\<close>
  first), \<open>merge(x, y)\<close> sets \<open>x.parent\<close> to \<open>y\<close>, \<open>x.right_sibling\<close> to the previous
  \<open>y.child\<close>, that child's \<open>left_sibling\<close> to \<open>x\<close>, \<open>y.child\<close> to \<open>x\<close>, and changes
  nothing else; \<open>x.left_sibling\<close> keeps its value.
\<close>

theorem merge_links:
  assumes "x \<noteq> y" "x < length ds" "y < length ds"
    and "\<forall>k. child (ds ! y) = Some k \<longrightarrow> k < length ds \<and> k \<noteq> x"
  shows "merge (Some x) (Some y) ds = Some (merge_spec x y ds)
    \<and> length (merge_spec x y ds) = length ds
    \<and> parent (merge_spec x y ds ! x) = Some y
    \<and> right_sibling (merge_spec x y ds ! x) = child (ds ! y)
    \<and> (\<forall>k. child (ds ! y) = Some k \<longrightarrow> left_sibling (merge_spec x y ds ! k) = Some x)
    \<and> child (merge_spec x y ds ! y) = Some x
    \<and> left_sibling (merge_spec x y ds ! x) = left_sibling (ds ! x)
    \<and> child (merge_spec x y ds ! x) = child (ds ! x)
    \<and> item_index (merge_spec x y ds ! x) = item_index (ds ! x)
    \<and> parent (merge_spec x y ds ! y) = parent (ds ! y)
    \<and> right_sibling (merge_spec x y ds ! y) = right_sibling (ds ! y)
    \<and> item_index (merge_spec x y ds ! y) = item_index (ds ! y)
    \<and> (child (ds ! y) \<noteq> Some y \<longrightarrow> left_sibling (merge_spec x y ds ! y) = left_sibling (ds ! y))
    \<and> (\<forall>k. child (ds ! y) = Some k \<longrightarrow> k \<noteq> y \<longrightarrow>
          merge_spec x y ds ! k = (ds ! k)\<lparr>left_sibling := Some x\<rparr>)
    \<and> (\<forall>n < length ds. n \<noteq> x \<longrightarrow> n \<noteq> y \<longrightarrow> child (ds ! y) \<noteq> Some n \<longrightarrow>
          merge_spec x y ds ! n = ds ! n)"
proof -
  have m: "merge (Some x) (Some y) ds = Some (merge_spec x y ds)"
    using assms by (intro merge_eq) auto
  show ?thesis
  proof (cases "child (ds ! y)")
    case None
    then show ?thesis using m assms(1-3) by (simp add: merge_spec_def)
  next
    case (Some k)
    with assms(4) have "k < length ds" "k \<noteq> x" by auto
    with Some m assms(1-3) show ?thesis
      by (auto simp add: merge_spec_def Let_def nth_list_update)
  qed
qed

theorem merge_links_witness:
  "merge (Some 2) (Some 0) (arena_two @ [dead_node]) = Some (merge_spec 2 0 (arena_two @ [dead_node]))
   \<and> left_sibling (merge_spec 2 0 (arena_two @ [dead_node]) ! 1) = Some 2
   \<and> left_sibling (merge_spec 2 0 (arena_two @ [dead_node]) ! 2) = None"
  using merge_links [of 2 0 "arena_two @ [dead_node]"]
  by (simp add: arena_two_def dead_node_def)

subsection \<open>C7: update of the root\<close>

text \<open>
  C7: if \<open>update(d)\<close> resolves through the locator to the node that is the root, the call
  only overwrites the value stored for that node with \<open>d\<close>: the arena (every link field and
  every \<open>item_index\<close>), the top index and the size are unchanged. The call is defined
  exactly when the root is a node of the arena whose \<open>item_index\<close> is a position of the
  value array.
\<close>

theorem update_root_only_overwrites:
  assumes "fst (id_lookup key (imap h) d) = i" and "top_index h = Some i"
  shows "(update cmp key d h \<noteq> None \<longleftrightarrow>
            i < length (data h) \<and> (\<exists>s < length (elements h). item_index (data h ! i) = Some s))
    \<and> (\<forall>h'. update cmp key d h = Some h' \<longrightarrow>
          data h' = data h \<and> top_index h' = top_index h \<and> heap_size h' = heap_size h
          \<and> (\<exists>s. item_index (data h ! i) = Some s \<and> elements h' = (elements h)[s := d]))"
proof (cases "id_lookup key (imap h) d")
  case (Pair j m)
  with assms have j: "j = i" by simp
  show ?thesis
  proof (cases "i < length (data h)")
    case False
    then show ?thesis using Pair j assms(2) by (simp add: update_def)
  next
    case True
    show ?thesis
    proof (cases "item_index (data h ! i)")
      case None
      then show ?thesis using Pair j assms(2) True by (simp add: update_def)
    next
      case (Some s)
      then show ?thesis using Pair j assms(2) True
        by (auto simp add: update_def heap_size_def)
    qed
  qed
qed

theorem update_root_only_overwrites_witness:
  "fst (id_lookup by_value (imap heap_two) 3) = 0 \<and> top_index heap_two = Some 0
   \<and> update (<) by_value 3 heap_two \<noteq> None
   \<and> data (the (update (<) by_value 3 heap_two)) = data heap_two
   \<and> top_index (the (update (<) by_value 3 heap_two)) = Some 0"
proof -
  have a: "fst (id_lookup by_value (imap heap_two) 3) = 0"
    by (simp add: id_lookup_def heap_two_def by_value_def)
  have b: "top_index heap_two = Some 0" by (simp add: heap_two_def)
  have c: "0 < length (data heap_two) \<and>
      (\<exists>s < length (elements heap_two). item_index (data heap_two ! 0) = Some s)"
    by (simp add: heap_two_def arena_two_def)
  from update_root_only_overwrites [OF a b, of "(<)"] c
  have d: "update (<) by_value 3 heap_two \<noteq> None"
    and e: "\<And>h'. update (<) by_value 3 heap_two = Some h' \<Longrightarrow>
          data h' = data heap_two \<and> top_index h' = top_index heap_two"
    by blast+
  from d obtain h' where h': "update (<) by_value 3 heap_two = Some h'" by auto
  from e [OF h'] h' a b d show ?thesis by simp
qed

subsection \<open>C9: items with equal keys\<close>

text \<open>
  C9: under the default internal map, pushing a value whose key equals the key of a value
  already stored overwrites the one locator entry they share, so both items resolve to the
  arena index of the new node (the length of the arena before the push); and one \<open>pop\<close>
  of the default variant that extracts one of them erases the entry for both.
\<close>

theorem equal_keys_share_locator_entry:
  assumes "key d0 = key d"
  shows "(\<forall>h1. push cmp key d h = Some h1 \<longrightarrow>
            imap h1 (key d0) = Some (length (data h)) \<and> imap h1 (key d) = Some (length (data h))
            \<and> (\<forall>k. k \<noteq> key d \<longrightarrow> imap h1 k = imap h k))
     \<and> (\<forall>h3 t. heap_top h2 = Some t \<longrightarrow> key t = key d \<longrightarrow> mph_pop cmp key h2 = Some h3 \<longrightarrow>
            imap h3 (key d0) = None \<and> imap h3 (key d) = None)"
  using assms by (auto dest!: push_effect dest: mph_pop_erases)

theorem equal_keys_share_locator_entry_witness:
  "by_value (5 :: int) = by_value 5
   \<and> push (<) by_value 5 heap_dup \<noteq> None
   \<and> imap (the (push (<) by_value 5 heap_dup)) (by_value 5) = Some 2
   \<and> heap_top heap_dup = Some 5
   \<and> mph_pop (<) by_value heap_dup \<noteq> None
   \<and> imap (the (mph_pop (<) by_value heap_dup)) (by_value 5) = None"
proof -
  have "\<not> Option.is_none (push (<) by_value 5 heap_dup)" by code_simp
  then obtain h1 where b: "push (<) by_value 5 heap_dup = Some h1"
    by (auto dest: not_is_none)
  have c: "heap_top heap_dup = Some 5" by code_simp
  have "\<not> Option.is_none (mph_pop (<) by_value heap_dup)" by code_simp
  then obtain h3 where d: "mph_pop (<) by_value heap_dup = Some h3"
    by (auto dest: not_is_none)
  have l: "length (data heap_dup) = 2" by (simp add: heap_dup_def arena_two_def)
  from equal_keys_share_locator_entry [of by_value 5 5 "(<)" heap_dup heap_dup] b c d l
  have "imap h1 (by_value 5) = Some 2" "imap h3 (by_value 5) = None" by auto
  then show ?thesis unfolding b c d by simp
qed

subsection \<open>C6: size\<close>

text \<open>
  C6 as stated: after any sequence of calls from the empty heap, \<open>size()\<close> is the number
  of \<open>push\<close> calls minus the number of \<open>pop\<close> calls. A \<open>pop\<close> on the empty heap returns
  at its guard and is still a \<open>pop\<close> call: after \<open>pop(); push(1)\<close> the size is 1, not 0.
\<close>

theorem size_not_pushes_minus_pops:
  "map_option heap_size (run (<) by_value [Pop, Push (1 :: int)] empty_heap)
     \<noteq> Some (pushes [Pop, Push (1 :: int)] - pops [Pop, Push (1 :: int)])"
  by code_simp

text \<open>
  C6, amended: after any sequence of calls from the empty heap, \<open>size()\<close> is the number of
  \<open>push\<close> calls minus the number of \<open>pop\<close> calls that found a root (that passed the guard
  of \<open>pop\<close>), and \<open>empty()\<close> is true if and only if \<open>size() == 0\<close>.
\<close>

theorem size_is_pushes_minus_guarded_pops:
  assumes "run cmp key calls empty_heap = Some h"
  shows "heap_size h + guarded_pops cmp key calls empty_heap = pushes calls
     \<and> (heap_empty h \<longleftrightarrow> heap_size h = 0)"
  using run_size [OF assms] by (simp add: empty_heap_def heap_size_def heap_empty_def)

theorem size_is_pushes_minus_guarded_pops_witness:
  "run (<) by_value [Pop, Push (1 :: int), Pop, Pop] empty_heap \<noteq> None
   \<and> heap_size (the (run (<) by_value [Pop, Push (1 :: int), Pop, Pop] empty_heap)) + 1 = 1"
proof -
  have "\<not> Option.is_none (run (<) by_value [Pop, Push (1 :: int), Pop, Pop] empty_heap)"
    by code_simp
  then obtain h where a: "run (<) by_value [Pop, Push (1 :: int), Pop, Pop] empty_heap = Some h"
    by (auto dest: not_is_none)
  have b: "guarded_pops (<) by_value [Pop, Push (1 :: int), Pop, Pop] empty_heap = 1"
    by code_simp
  have c: "pushes [Pop, Push (1 :: int), Pop, Pop] = 1" by simp
  from size_is_pushes_minus_guarded_pops [OF a]
  have "heap_size h + 1 = 1" unfolding b c by simp
  then show ?thesis unfolding a by simp
qed

subsection \<open>C10: the arena never shrinks\<close>

text \<open>
  C10: after any sequence of calls from the empty heap, the length of the arena is the
  number of \<open>push\<close> calls; a \<open>pop\<close> that finds a root takes one value from the value array
  and keeps the record of the extracted node in the arena, with every field set to the
  sentinel.
\<close>

theorem arena_never_shrinks:
  "(run cmp key calls empty_heap = Some h \<longrightarrow> length (data h) = pushes calls)
   \<and> (pop cmp key h1 = Some h2 \<longrightarrow> top_index h1 = Some t \<longrightarrow>
        length (data h2) = length (data h1) \<and> data h2 ! t = dead_node
        \<and> length (elements h2) = length (elements h1) - 1)"
  using run_size [of cmp key calls empty_heap h] pop_effect [of cmp key h1 h2 t]
  by (simp add: empty_heap_def)

theorem arena_never_shrinks_witness:
  "run (<) by_value [Push (2 :: int), Push 1, Pop] empty_heap \<noteq> None
   \<and> length (data (the (run (<) by_value [Push (2 :: int), Push 1, Pop] empty_heap))) = 2
   \<and> pop (<) by_value heap_two \<noteq> None \<and> top_index heap_two = Some 0
   \<and> data (the (pop (<) by_value heap_two)) ! 0 = dead_node"
proof -
  have "\<not> Option.is_none (run (<) by_value [Push (2 :: int), Push 1, Pop] empty_heap)"
    by code_simp
  then obtain h where a: "run (<) by_value [Push (2 :: int), Push 1, Pop] empty_heap = Some h"
    by (auto dest: not_is_none)
  have "\<not> Option.is_none (pop (<) by_value heap_two)" by code_simp
  then obtain h2 where b: "pop (<) by_value heap_two = Some h2"
    by (auto dest: not_is_none)
  have c: "top_index heap_two = Some 0" by (simp add: heap_two_def)
  have d: "pushes [Push (2 :: int), Push 1, Pop] = 2" by simp
  from arena_never_shrinks [of "(<)" by_value "[Push (2 :: int), Push 1, Pop]" h heap_two h2 0]
  have "length (data h) = 2" "data h2 ! 0 = dead_node" unfolding a b c d by simp_all
  then show ?thesis unfolding a b c by simp
qed

end
